theory Spec2Isabelle
  imports Main
begin

section \<open>The conversation manager of \<^verbatim>\<open>src/gemini_client.py\<close>\<close>

text \<open>
  \<^verbatim>\<open>GeminiClient\<close> maps conversation ids to a remote chat session and a
  history of turns, forwards messages to the session, saves the images of the
  reply and records the exchange. The embedding keeps the client's fields in a
  record that every method takes and returns; whatever the methods obtain from
  outside the program (the clock, the uuid generator, the SDK, PIL, the file
  system) is an input of the model, collected in the record \<open>env\<close>.
  An exception that leaves a method is the \<open>Inl\<close> of its result.
\<close>

subsection \<open>Python values\<close>

type_synonym bytes = string

text \<open>An exception object, kept by what \<^verbatim>\<open>str(e)\<close> gives. Only \<^verbatim>\<open>Exception\<close>
  and its subclasses are modelled, the ones \<^verbatim>\<open>except Exception\<close> catches.\<close>

datatype exn = Exception (str: string)

text \<open>The values stored in the dict literals of the source, and a dict literal as
  the list of its items in the order they are written.\<close>

datatype pyval = PyNone | PyStr string | PyBool bool | PyList "string list"

type_synonym pydict = "(string \<times> pyval) list"

definition keys :: "pydict \<Rightarrow> string list" where
  "keys d = map fst d"

definition get :: "pydict \<Rightarrow> string \<Rightarrow> pyval option" where
  "get d k = map_of d k"

subsection \<open>Formatting\<close>

text \<open>\<^verbatim>\<open>str(i)\<close> of a non-negative integer, as the f-string \<^verbatim>\<open>{i}\<close> prints it.\<close>

definition digit_char :: "nat \<Rightarrow> char" where
  "digit_char d = ''0123456789'' ! (d mod 10)"

fun str_nat :: "nat \<Rightarrow> string" where
  "str_nat n = (if n < 10 then [digit_char n] else str_nat (n div 10) @ [digit_char n])"

declare str_nat.simps [simp del]

text \<open>\<^verbatim>\<open>"%0wd" % n\<close>.\<close>

definition zero_pad :: "nat \<Rightarrow> nat \<Rightarrow> string" where
  "zero_pad w n = replicate (w - length (str_nat n)) (CHR ''0'') @ str_nat n"

record datetime =
  year :: nat
  month :: nat
  day :: nat
  hour :: nat
  minute :: nat
  second :: nat
  microsecond :: nat

text \<open>\<^verbatim>\<open>datetime.isoformat()\<close>: \<^verbatim>\<open>YYYY-MM-DDTHH:MM:SS\<close>, followed by
  \<^verbatim>\<open>.ffffff\<close> when the microsecond is not 0.\<close>

definition isoformat :: "datetime \<Rightarrow> string" where
  "isoformat t =
     zero_pad 4 (year t) @ ''-'' @ zero_pad 2 (month t) @ ''-'' @ zero_pad 2 (day t) @ ''T'' @
     zero_pad 2 (hour t) @ '':'' @ zero_pad 2 (minute t) @ '':'' @ zero_pad 2 (second t) @
     (if microsecond t = 0 then [] else ''.'' @ zero_pad 6 (microsecond t))"

text \<open>\<^verbatim>\<open>datetime.strftime("%Y%m%d%H%M%S")\<close>, for the four-digit years of a
  running clock.\<close>

definition strftime :: "datetime \<Rightarrow> string" where
  "strftime t =
     zero_pad 4 (year t) @ zero_pad 2 (month t) @ zero_pad 2 (day t) @
     zero_pad 2 (hour t) @ zero_pad 2 (minute t) @ zero_pad 2 (second t)"

text \<open>\<^verbatim>\<open>os.path.join(a, b)\<close> of posixpath: an absolute \<open>b\<close> replaces \<open>a\<close>.\<close>

definition os_path_join :: "string \<Rightarrow> string \<Rightarrow> string" where
  "os_path_join a b =
     (if b \<noteq> [] \<and> hd b = CHR ''/'' then b
      else if a = [] \<or> last a = CHR ''/'' then a @ b
      else a @ ''/'' @ b)"

text \<open>\<^verbatim>\<open>xs[start:]\<close>: a negative start counts from the end, and both are clipped
  to the list.\<close>

definition slice_from :: "int \<Rightarrow> 'a list \<Rightarrow> 'a list" where
  "slice_from start xs =
     (if start < 0 then drop (nat (int (length xs) + start)) xs else drop (nat start) xs)"

subsection \<open>The SDK's response\<close>

datatype blob = Blob (data: "bytes option")

datatype part = Part (inline_data: "blob option")

datatype content = Content (parts: "part list option")

datatype candidate = Candidate (content: "content option")

text \<open>\<open>response_text\<close> is the property \<^verbatim>\<open>response.text\<close>. The SDK's types
  declare every attribute the source tests with \<^verbatim>\<open>hasattr\<close>, so an attribute
  is either \<open>None\<close> or a value.\<close>

datatype response =
  Response (response_text: "string option") (candidates: "candidate list option")

datatype image = Image bytes

datatype chat = Chat nat

subsection \<open>The environment of one method call\<close>

text \<open>The places where the source reads \<^verbatim>\<open>datetime.now()\<close>.\<close>

datatype site =
    CreatedAt | CreatedLastActive
  | UserTimestamp | LastActive
  | PartTimestamp nat
  | AssistantTimestamp | ErrorTimestamp

record env =
  uuid4 :: string
  chats_create :: "exn option"
  now :: "site \<Rightarrow> datetime"
  chat_send_message :: "chat \<Rightarrow> string \<Rightarrow> exn + response"
  makedirs :: "string \<Rightarrow> exn option"
  image_open :: "bytes \<Rightarrow> exn + image"
  image_save :: "string \<Rightarrow> image \<Rightarrow> exn option"

subsection \<open>The client\<close>

record conversation =
  chat :: chat
  history :: "pydict list"
  created_at :: datetime
  last_active :: datetime

text \<open>\<open>sessions\<close> counts the chat sessions \<^verbatim>\<open>self.client.chats\<close> has opened:
  session \<open>n\<close> is the object \<open>Chat n\<close>. \<open>files\<close> lists the image files written,
  oldest first. \<^verbatim>\<open>self.conversations\<close> is a map: the order of its keys is read
  by \<^verbatim>\<open>get_conversation_ids\<close> only.\<close>

record gemini_client =
  api_key :: string
  model :: string
  max_history :: int
  output_dir :: string
  conversations :: "string \<rightharpoonup> conversation"
  sessions :: nat
  files :: "(string \<times> image) list"

definition init :: "string \<Rightarrow> string \<Rightarrow> int \<Rightarrow> string \<Rightarrow> gemini_client" where
  "init key mdl mh out =
     \<lparr>api_key = key, model = mdl, max_history = mh, output_dir = out,
      conversations = Map.empty, sessions = 0, files = []\<rparr>"

definition default_model :: string where
  "default_model = ''gemini-2.0-flash-exp-image-generation''"

definition default_max_history :: int where
  "default_max_history = 30"

definition default_output_dir :: string where
  "default_output_dir = ''output''"

definition create_conversation ::
  "env \<Rightarrow> gemini_client \<Rightarrow> string option \<Rightarrow> exn + (string \<times> gemini_client)" where
  "create_conversation e c conversation_id =
     (let cid = (case conversation_id of None \<Rightarrow> uuid4 e | Some i \<Rightarrow> i) in
      case chats_create e of
        Some x \<Rightarrow> Inl x
      | None \<Rightarrow>
          Inr (cid,
            c\<lparr>conversations := (conversations c)(cid \<mapsto>
                 \<lparr>chat = Chat (sessions c), history = [],
                  created_at = now e CreatedAt, last_active = now e CreatedLastActive\<rparr>),
              sessions := Suc (sessions c)\<rparr>))"

definition get_conversation_history ::
  "gemini_client \<Rightarrow> string \<Rightarrow> pydict list \<times> gemini_client" where
  "get_conversation_history c conversation_id =
     (case conversations c conversation_id of
        None \<Rightarrow> ([], c)
      | Some conv \<Rightarrow> (history conv, c))"

definition reset_conversation ::
  "env \<Rightarrow> gemini_client \<Rightarrow> string \<Rightarrow> exn + (bool \<times> gemini_client)" where
  "reset_conversation e c conversation_id =
     (if conversations c conversation_id = None then Inr (False, c)
      else case create_conversation e c (Some conversation_id) of
             Inl x \<Rightarrow> Inl x
           | Inr (_, c') \<Rightarrow> Inr (True, c'))"

definition delete_conversation :: "gemini_client \<Rightarrow> string \<Rightarrow> bool \<times> gemini_client" where
  "delete_conversation c conversation_id =
     (if conversations c conversation_id = None then (False, c)
      else (True, c\<lparr>conversations := (conversations c)(conversation_id := None)\<rparr>))"

subsection \<open>send_message\<close>

text \<open>Lines 89 to 91: an id that is not a key of the store, \<open>None\<close> among them,
  goes through \<open>create_conversation\<close>, outside the \<^verbatim>\<open>try\<close>.\<close>

definition lookup_or_create ::
  "env \<Rightarrow> gemini_client \<Rightarrow> string option \<Rightarrow> exn + (string \<times> gemini_client)" where
  "lookup_or_create e c conversation_id =
     (case conversation_id of
        None \<Rightarrow> create_conversation e c None
      | Some i \<Rightarrow>
          if conversations c i = None then create_conversation e c (Some i) else Inr (i, c))"

text \<open>Lines 104 to 107, the sliding window.\<close>

definition sliding_window :: "int \<Rightarrow> 'a list \<Rightarrow> 'a list" where
  "sliding_window mh h = (if int (length h) > mh then slice_from (- mh) h else h)"

definition user_message :: "env \<Rightarrow> string \<Rightarrow> pydict" where
  "user_message e message =
     [(''role'', PyStr ''user''), (''content'', PyStr message),
      (''timestamp'', PyStr (isoformat (now e UserTimestamp)))]"

definition assistant_message :: "env \<Rightarrow> string option \<Rightarrow> string list \<Rightarrow> pydict" where
  "assistant_message e text_content image_paths =
     [(''role'', PyStr ''assistant''),
      (''content'', (case text_content of None \<Rightarrow> PyNone | Some t \<Rightarrow> PyStr t)),
      (''images'', PyList image_paths),
      (''timestamp'', PyStr (isoformat (now e AssistantTimestamp)))]"

definition error_message :: "env \<Rightarrow> exn \<Rightarrow> pydict" where
  "error_message e x =
     [(''role'', PyStr ''system''), (''content'', PyStr (''Error: '' @ str x)),
      (''timestamp'', PyStr (isoformat (now e ErrorTimestamp)))]"

text \<open>Lines 96 to 110: the user turn, the window and the last-active time.\<close>

definition record_user_message :: "env \<Rightarrow> int \<Rightarrow> string \<Rightarrow> conversation \<Rightarrow> conversation" where
  "record_user_message e mh message conv =
     conv\<lparr>history := sliding_window mh (history conv @ [user_message e message]),
          last_active := now e LastActive\<rparr>"

text \<open>Lines 125 to 142, the loop over the parts: \<open>i\<close> is the index
  \<^verbatim>\<open>enumerate\<close> gives to the first part of the list. An exception leaves the
  loop with the files written so far.\<close>

fun save_parts ::
  "env \<Rightarrow> string \<Rightarrow> string \<Rightarrow> nat \<Rightarrow> part list \<Rightarrow> string list \<Rightarrow> (string \<times> image) list \<Rightarrow>
   (exn + string list) \<times> (string \<times> image) list" where
  "save_parts e out cid i [] image_paths fs = (Inr image_paths, fs)"
| "save_parts e out cid i (p # ps) image_paths fs =
     (case inline_data p of
        None \<Rightarrow> save_parts e out cid (Suc i) ps image_paths fs
      | Some b \<Rightarrow>
          (let timestamp = strftime (now e (PartTimestamp i));
               filename = cid @ ''_'' @ timestamp @ ''_'' @ str_nat i @ ''.png''
           in case makedirs e out of
                Some x \<Rightarrow> (Inl x, fs)
              | None \<Rightarrow>
                  (let filepath = os_path_join out filename
                   in case image_open e (case data b of None \<Rightarrow> [] | Some d \<Rightarrow> d) of
                        Inl x \<Rightarrow> (Inl x, fs)
                      | Inr img \<Rightarrow>
                          (case image_save e filepath img of
                             Some x \<Rightarrow> (Inl x, fs)
                           | None \<Rightarrow>
                               save_parts e out cid (Suc i) ps
                                 (image_paths @ [filepath]) (fs @ [(filepath, img)])))))"

definition not_iterable :: exn where
  "not_iterable = Exception ([CHR 0x27] @ ''NoneType'' @ [CHR 0x27] @ '' object is not iterable'')"

text \<open>Lines 118 to 142: the parts of the first candidate's content. Iterating
  over \<^verbatim>\<open>parts = None\<close> raises a TypeError.\<close>

definition extract_images ::
  "env \<Rightarrow> string \<Rightarrow> string \<Rightarrow> response \<Rightarrow> (string \<times> image) list \<Rightarrow>
   (exn + string list) \<times> (string \<times> image) list" where
  "extract_images e out cid r fs =
     (case candidates r of
        None \<Rightarrow> (Inr [], fs)
      | Some [] \<Rightarrow> (Inr [], fs)
      | Some (cand # _) \<Rightarrow>
          (case content cand of
             None \<Rightarrow> (Inr [], fs)
           | Some ct \<Rightarrow>
               (case parts ct of
                  None \<Rightarrow> (Inl not_iterable, fs)
                | Some ps \<Rightarrow> save_parts e out cid 0 ps [] fs)))"

text \<open>Lines 112 to 142, the body of the \<^verbatim>\<open>try\<close> up to the assistant turn: the
  reply's text and image paths, or the exception raised, with the files.\<close>

definition exchange ::
  "env \<Rightarrow> string \<Rightarrow> string \<Rightarrow> chat \<Rightarrow> string \<Rightarrow> (string \<times> image) list \<Rightarrow>
   (exn + string option \<times> string list) \<times> (string \<times> image) list" where
  "exchange e out cid ch message fs =
     (case chat_send_message e ch message of
        Inl x \<Rightarrow> (Inl x, fs)
      | Inr r \<Rightarrow>
          (case extract_images e out cid r fs of
             (Inl x, fs') \<Rightarrow> (Inl x, fs')
           | (Inr image_paths, fs') \<Rightarrow> (Inr (response_text r, image_paths), fs')))"

definition success_result :: "string \<Rightarrow> string option \<Rightarrow> string list \<Rightarrow> pydict" where
  "success_result cid text_content image_paths =
     [(''conversation_id'', PyStr cid),
      (''text'', (case text_content of None \<Rightarrow> PyNone | Some t \<Rightarrow> PyStr t)),
      (''image_paths'', PyList image_paths),
      (''success'', PyBool True)]"

definition failure_result :: "string \<Rightarrow> exn \<Rightarrow> pydict" where
  "failure_result cid x =
     [(''conversation_id'', PyStr cid), (''error'', PyStr (str x)), (''success'', PyBool False)]"

definition key_error :: exn where
  "key_error = Exception ''KeyError''"

definition send_message ::
  "env \<Rightarrow> gemini_client \<Rightarrow> string option \<Rightarrow> string \<Rightarrow> exn + (pydict \<times> gemini_client)" where
  "send_message e c conversation_id message =
     (case lookup_or_create e c conversation_id of
        Inl x \<Rightarrow> Inl x
      | Inr (cid, c1) \<Rightarrow>
          (case conversations c1 cid of
             None \<Rightarrow> Inl key_error
           | Some conv \<Rightarrow>
               (let conv1 = record_user_message e (max_history c1) message conv
                in case exchange e (output_dir c1) cid (chat conv) message (files c1) of
                     (Inr (text_content, image_paths), fs) \<Rightarrow>
                       Inr (success_result cid text_content image_paths,
                            c1\<lparr>conversations := (conversations c1)(cid \<mapsto>
                                  conv1\<lparr>history := history conv1 @
                                    [assistant_message e text_content image_paths]\<rparr>),
                               files := fs\<rparr>)
                   | (Inl x, fs) \<Rightarrow>
                       Inr (failure_result cid x,
                            c1\<lparr>conversations := (conversations c1)(cid \<mapsto>
                                  conv1\<lparr>history := history conv1 @ [error_message e x]\<rparr>),
                               files := fs\<rparr>))))"

text \<open>A sequence of calls on one client, each with its own environment; it
  stops at the first exception that leaves \<open>send_message\<close>.\<close>

fun send_messages ::
  "gemini_client \<Rightarrow> (env \<times> string option \<times> string) list \<Rightarrow> exn + gemini_client" where
  "send_messages c [] = Inr c"
| "send_messages c ((e, cid, message) # calls) =
     (case send_message e c cid message of
        Inl x \<Rightarrow> Inl x
      | Inr (_, c') \<Rightarrow> send_messages c' calls)"

subsection \<open>The shape of a result\<close>

text \<open>The two dict literals \<open>send_message\<close> returns, by their keys, and what a
  caller may rely on in either: the id, the flag, and the fields of the flag's
  case.\<close>

definition success_keys :: "string list" where
  "success_keys = [''conversation_id'', ''text'', ''image_paths'', ''success'']"

definition failure_keys :: "string list" where
  "failure_keys = [''conversation_id'', ''error'', ''success'']"

definition is_str :: "pyval option \<Rightarrow> bool" where
  "is_str v = (case v of Some (PyStr _) \<Rightarrow> True | _ \<Rightarrow> False)"

definition is_optional_str :: "pyval option \<Rightarrow> bool" where
  "is_optional_str v = (case v of Some (PyStr _) \<Rightarrow> True | Some PyNone \<Rightarrow> True | _ \<Rightarrow> False)"

definition is_list :: "pyval option \<Rightarrow> bool" where
  "is_list v = (case v of Some (PyList _) \<Rightarrow> True | _ \<Rightarrow> False)"

definition well_formed_result :: "pydict \<Rightarrow> bool" where
  "well_formed_result r =
     (is_str (get r ''conversation_id'') \<and>
      (if get r ''success'' = Some (PyBool True)
       then keys r = success_keys \<and> is_optional_str (get r ''text'') \<and> is_list (get r ''image_paths'')
       else get r ''success'' = Some (PyBool False) \<and> keys r = failure_keys \<and> is_str (get r ''error'')))"

subsection \<open>The image payloads of a response\<close>

text \<open>The content parts of a response, read where the source reads them: in the
  content of the first candidate.\<close>

definition response_parts :: "response \<Rightarrow> part list" where
  "response_parts r =
     (case candidates r of
        Some (cand # _) \<Rightarrow>
          (case content cand of
             Some ct \<Rightarrow> (case parts ct of Some ps \<Rightarrow> ps | None \<Rightarrow> [])
           | None \<Rightarrow> [])
      | _ \<Rightarrow> [])"

text \<open>The parts that carry inline data, each with its position, in the order of
  the list; the first position is \<open>i\<close>.\<close>

definition inline_from :: "nat \<Rightarrow> part list \<Rightarrow> (nat \<times> blob) list" where
  "inline_from i ps = List.map_filter (\<lambda>(k, p). map_option (Pair k) (inline_data p)) (enumerate i ps)"

definition inline_payloads :: "part list \<Rightarrow> (nat \<times> blob) list" where
  "inline_payloads ps = inline_from 0 ps"

definition payload_bytes :: "blob \<Rightarrow> bytes" where
  "payload_bytes b = (case data b of None \<Rightarrow> [] | Some d \<Rightarrow> d)"

text \<open>The path under which the payload at position \<open>k\<close> is saved.\<close>

definition image_path :: "env \<Rightarrow> string \<Rightarrow> string \<Rightarrow> nat \<Rightarrow> string" where
  "image_path e out cid k =
     os_path_join out (cid @ ''_'' @ strftime (now e (PartTimestamp k)) @ ''_'' @ str_nat k @ ''.png'')"

text \<open>A written file belongs to a payload: it lies at the payload's path and holds
  the image PIL decoded from the payload's bytes.\<close>

definition saved_as :: "env \<Rightarrow> string \<Rightarrow> string \<Rightarrow> string \<times> image \<Rightarrow> nat \<times> blob \<Rightarrow> bool" where
  "saved_as e out cid file payload =
     (fst file = image_path e out cid (fst payload) \<and>
      image_open e (payload_bytes (snd payload)) = Inr (snd file))"

subsection \<open>Session handles and history lengths\<close>

fun chat_id :: "chat \<Rightarrow> nat" where
  "chat_id (Chat n) = n"

text \<open>Every stored handle is a session opened earlier: the invariant under which
  a newly opened session differs from all handles in the store.\<close>

definition sessions_ok :: "gemini_client \<Rightarrow> bool" where
  "sessions_ok c = (\<forall>i conv. conversations c i = Some conv \<longrightarrow> chat_id (chat conv) < sessions c)"

text \<open>The number of turns recorded for an id, 0 for an id that is not a key, and the
  length after one more call in terms of the length before it: the user turn,
  the window, the reply's turn.\<close>

definition history_length :: "gemini_client \<Rightarrow> string \<Rightarrow> nat" where
  "history_length c i = (case conversations c i of None \<Rightarrow> 0 | Some conv \<Rightarrow> length (history conv))"

definition step_length :: "int \<Rightarrow> nat \<Rightarrow> nat" where
  "step_length mh n = min (n + 1) (nat mh) + 1"

subsection \<open>Example environments and clients\<close>

text \<open>\<open>reply_env\<close> answers with a text and the given parts, and every call to
  the outside succeeds; \<open>failing_env\<close> raises in \<^verbatim>\<open>chat.send_message\<close>;
  \<open>no_session_env\<close> raises in \<^verbatim>\<open>chats.create\<close>. \<open>client0\<close> is a new
  client, \<open>client_with\<close> one that holds the conversation \<open>c\<close> with a given
  history.\<close>

definition noon :: datetime where
  "noon = \<lparr>year = 2025, month = 3, day = 9, hour = 12, minute = 0, second = 0, microsecond = 0\<rparr>"

definition reply_env :: "string option \<Rightarrow> part list \<Rightarrow> env" where
  "reply_env txt ps =
     \<lparr>uuid4 = ''3f2b8c1e'', chats_create = None, now = (\<lambda>_. noon),
      chat_send_message = (\<lambda>_ _. Inr (Response txt (Some [Candidate (Some (Content (Some ps)))]))),
      makedirs = (\<lambda>_. None), image_open = (\<lambda>b. Inr (Image b)), image_save = (\<lambda>_ _. None)\<rparr>"

definition failing_env :: "string \<Rightarrow> env" where
  "failing_env msg = (reply_env None [])\<lparr>chat_send_message := (\<lambda>_ _. Inl (Exception msg))\<rparr>"

definition no_session_env :: env where
  "no_session_env = (reply_env None [])\<lparr>chats_create := Some (Exception ''model not found'')\<rparr>"

definition client0 :: "int \<Rightarrow> gemini_client" where
  "client0 mh = init ''key'' default_model mh default_output_dir"

definition conv_with :: "pydict list \<Rightarrow> conversation" where
  "conv_with h = \<lparr>chat = Chat 0, history = h, created_at = noon, last_active = noon\<rparr>"

definition client_with :: "int \<Rightarrow> pydict list \<Rightarrow> gemini_client" where
  "client_with mh h = (client0 mh)\<lparr>conversations := [''c'' \<mapsto> conv_with h], sessions := 1\<rparr>"

definition turn1 :: pydict where
  "turn1 = user_message (reply_env None []) ''first''"

definition turn2 :: pydict where
  "turn2 = assistant_message (reply_env None []) (Some ''second'') []"

definition ask :: "string \<Rightarrow> string \<Rightarrow> env \<times> string option \<times> string" where
  "ask message reply = (reply_env (Some reply) [], Some ''c'', message)"

definition pixels :: "part list" where
  "pixels = [Part None, Part (Some (Blob (Some ''PNG-a''))), Part None, Part (Some (Blob (Some ''PNG-b'')))]"

section \<open>Properties\<close>

subsection \<open>The steps of send_message\<close>

lemma lookup_or_create_known:
  "conversations c i = Some conv \<Longrightarrow> lookup_or_create e c (Some i) = Inr (i, c)"
  by (simp add: lookup_or_create_def)

lemma create_conversation_Inr:
  assumes "create_conversation e c cid = Inr (i, c1)"
  shows "chats_create e = None"
    and "i = (case cid of None \<Rightarrow> uuid4 e | Some j \<Rightarrow> j)"
    and "c1 = c\<lparr>conversations := (conversations c)(i \<mapsto>
                 \<lparr>chat = Chat (sessions c), history = [],
                  created_at = now e CreatedAt, last_active = now e CreatedLastActive\<rparr>),
              sessions := Suc (sessions c)\<rparr>"
  using assms by (auto simp: create_conversation_def Let_def split: option.splits)

lemma create_conversation_ok:
  "chats_create e = None \<Longrightarrow> \<exists>i c1. create_conversation e c cid = Inr (i, c1)"
  by (simp add: create_conversation_def Let_def)

lemma create_conversation_raises:
  "chats_create e = Some x \<Longrightarrow> create_conversation e c cid = Inl x"
  by (simp add: create_conversation_def Let_def)

lemma lookup_or_create_frame:
  assumes "lookup_or_create e c cid = Inr (i, c1)"
  shows "files c1 = files c" and "max_history c1 = max_history c" and "output_dir c1 = output_dir c"
    and "conversations c1 i \<noteq> None"
  using assms
  by (auto simp: lookup_or_create_def split: option.splits if_splits dest!: create_conversation_Inr(3))

lemma lookup_or_create_ok:
  assumes "(\<exists>i. cid = Some i \<and> conversations c i \<noteq> None) \<or> chats_create e = None"
  shows "\<exists>i c1. lookup_or_create e c cid = Inr (i, c1)"
  using assms create_conversation_ok [of e c]
  by (auto simp: lookup_or_create_def split: option.splits)

lemma lookup_or_create_raises:
  assumes "\<forall>i. cid = Some i \<longrightarrow> conversations c i = None" and "chats_create e = Some x"
  shows "lookup_or_create e c cid = Inl x"
  using assms by (auto simp: lookup_or_create_def create_conversation_raises split: option.splits)

lemma lookup_or_create_Some:
  assumes "lookup_or_create e c (Some i) = Inr (j, c1)"
  shows "j = i" and "history_length c1 i = history_length c i"
proof -
  have "j = i \<and> history_length c1 i = history_length c i"
  proof (cases "conversations c i")
    case None
    with assms have created: "create_conversation e c (Some i) = Inr (j, c1)"
      by (simp add: lookup_or_create_def)
    from create_conversation_Inr(2) [OF created] create_conversation_Inr(3) [OF created] None
    show ?thesis by (simp add: history_length_def)
  next
    case (Some conv)
    with assms show ?thesis by (simp add: lookup_or_create_def)
  qed
  then show "j = i" and "history_length c1 i = history_length c i" by simp_all
qed

lemma exchange_raises:
  "chat_send_message e ch message = Inl x \<Longrightarrow> exchange e out cid ch message fs = (Inl x, fs)"
  by (simp add: exchange_def)

lemma send_message_unfold:
  assumes "lookup_or_create e c cid = Inr (i, c1)" and "conversations c1 i = Some conv"
  shows "send_message e c cid message =
     (let conv1 = record_user_message e (max_history c1) message conv
      in case exchange e (output_dir c1) i (chat conv) message (files c1) of
           (Inr (text_content, image_paths), fs) \<Rightarrow>
             Inr (success_result i text_content image_paths,
                  c1\<lparr>conversations := (conversations c1)(i \<mapsto>
                        conv1\<lparr>history := history conv1 @
                          [assistant_message e text_content image_paths]\<rparr>),
                     files := fs\<rparr>)
         | (Inl x, fs) \<Rightarrow>
             Inr (failure_result i x,
                  c1\<lparr>conversations := (conversations c1)(i \<mapsto>
                        conv1\<lparr>history := history conv1 @ [error_message e x]\<rparr>),
                     files := fs\<rparr>))"
  using assms by (simp add: send_message_def)

lemma success_result_fields:
  "keys (success_result i t ps) = success_keys"
  "get (success_result i t ps) ''conversation_id'' = Some (PyStr i)"
  "get (success_result i t ps) ''text'' = Some (case t of None \<Rightarrow> PyNone | Some s \<Rightarrow> PyStr s)"
  "get (success_result i t ps) ''image_paths'' = Some (PyList ps)"
  "get (success_result i t ps) ''success'' = Some (PyBool True)"
  "get (success_result i t ps) ''error'' = None"
  by (simp_all add: success_result_def keys_def get_def success_keys_def)

lemma failure_result_fields:
  "keys (failure_result i x) = failure_keys"
  "get (failure_result i x) ''conversation_id'' = Some (PyStr i)"
  "get (failure_result i x) ''error'' = Some (PyStr (str x))"
  "get (failure_result i x) ''success'' = Some (PyBool False)"
  "get (failure_result i x) ''text'' = None"
  "get (failure_result i x) ''image_paths'' = None"
  by (simp_all add: failure_result_def keys_def get_def failure_keys_def)

lemma well_formed_success: "well_formed_result (success_result i t ps)"
  by (simp add: well_formed_result_def success_result_fields is_str_def is_optional_str_def
      is_list_def split: option.splits)

lemma well_formed_failure: "well_formed_result (failure_result i x)"
  by (simp add: well_formed_result_def failure_result_fields is_str_def)

lemma user_message_fields:
  "get (user_message e message) ''role'' = Some (PyStr ''user'')"
  "get (user_message e message) ''content'' = Some (PyStr message)"
  by (simp_all add: user_message_def get_def)

lemma assistant_message_fields:
  "get (assistant_message e t ps) ''role'' = Some (PyStr ''assistant'')"
  "get (assistant_message e t ps) ''content'' = Some (case t of None \<Rightarrow> PyNone | Some s \<Rightarrow> PyStr s)"
  "get (assistant_message e t ps) ''images'' = Some (PyList ps)"
  by (simp_all add: assistant_message_def get_def)

lemma error_message_fields:
  "get (error_message e x) ''role'' = Some (PyStr ''system'')"
  "get (error_message e x) ''content'' = Some (PyStr (''Error: '' @ str x))"
  by (simp_all add: error_message_def get_def)

lemma send_message_returns:
  assumes "lookup_or_create e c cid = Inr (i, c1)"
  shows "\<exists>r c'. send_message e c cid message = Inr (r, c') \<and> well_formed_result r \<and>
           ((get r ''error'' \<noteq> None) = (get r ''success'' = Some (PyBool False)))"
proof -
  from assms obtain conv where conv: "conversations c1 i = Some conv"
    using lookup_or_create_frame(4) by blast
  obtain outcome fs where ex: "exchange e (output_dir c1) i (chat conv) message (files c1) = (outcome, fs)"
    by (cases "exchange e (output_dir c1) i (chat conv) message (files c1)")
  show ?thesis
  proof (cases outcome)
    case (Inl x)
    with ex show ?thesis
      by (simp add: send_message_unfold [OF assms conv] Let_def well_formed_failure
          failure_result_fields)
  next
    case (Inr tp)
    with ex show ?thesis
      by (cases tp) (simp add: send_message_unfold [OF assms conv] Let_def well_formed_success
          success_result_fields)
  qed
qed

subsection \<open>The sliding window\<close>

lemma slice_from_neg: "0 < m \<Longrightarrow> slice_from (- m) xs = drop (length xs - nat m) xs"
  by (auto simp: slice_from_def nat_diff_distrib' intro: arg_cong [where f = "\<lambda>n. drop n xs"])

lemma sliding_window_pos:
  "0 < m \<Longrightarrow> sliding_window m xs = drop (length xs - nat m) xs"
  by (auto simp: sliding_window_def slice_from_neg)

lemma length_sliding_window:
  "0 < m \<Longrightarrow> length (sliding_window m xs) = min (length xs) (nat m)"
  by (auto simp: sliding_window_pos)

lemma sliding_window_zero: "sliding_window 0 xs = xs"
  by (simp add: sliding_window_def slice_from_def)

lemma sliding_window_fits: "int (length xs) \<le> m \<Longrightarrow> sliding_window m xs = xs"
  by (simp add: sliding_window_def)

lemma sliding_window_keeps_most_recent:
  assumes "0 < mh" and "mh < int (length (h @ [u]))"
  shows "sliding_window mh (h @ [u]) = drop (length (h @ [u]) - nat mh) (h @ [u])"
    and "length (sliding_window mh (h @ [u])) = nat mh"
    and "\<exists>oldest. h @ [u] = oldest @ sliding_window mh (h @ [u])"
proof -
  show eq: "sliding_window mh (h @ [u]) = drop (length (h @ [u]) - nat mh) (h @ [u])"
    using assms(1) by (rule sliding_window_pos)
  show "length (sliding_window mh (h @ [u])) = nat mh"
    using assms by (simp add: length_sliding_window)
  have "h @ [u] = take (length (h @ [u]) - nat mh) (h @ [u]) @ sliding_window mh (h @ [u])"
    unfolding eq by (rule append_take_drop_id [symmetric])
  then show "\<exists>oldest. h @ [u] = oldest @ sliding_window mh (h @ [u])" ..
qed

subsection \<open>The example clients\<close>

lemma client0_empty: "conversations (client0 mh) i = None"
  by (simp add: client0_def init_def)

lemma client_with_conv: "conversations (client_with mh h) ''c'' = Some (conv_with h)"
  by (simp add: client_with_def)

lemma failing_env_send: "chat_send_message (failing_env msg) ch message = Inl (Exception msg)"
  by (simp add: failing_env_def)

lemma exchange_reply_env: "exchange (reply_env t []) out i ch message fs = (Inr (t, []), fs)"
  by (simp add: exchange_def extract_images_def reply_env_def)

lemma send_message_reply:
  assumes "lookup_or_create (reply_env t []) c cid = Inr (i, c1)" and "conversations c1 i = Some conv"
  shows "send_message (reply_env t []) c cid message =
     Inr (success_result i t [],
          c1\<lparr>conversations := (conversations c1)(i \<mapsto>
                conv\<lparr>last_active := now (reply_env t []) LastActive,
                     history :=
                       sliding_window (max_history c1)
                         (history conv @ [user_message (reply_env t []) message]) @
                       [assistant_message (reply_env t []) t []]\<rparr>)\<rparr>)"
  by (simp add: send_message_unfold [OF assms] Let_def exchange_reply_env record_user_message_def)

lemma first_ask:
  "send_message (reply_env t []) (client0 mh) (Some ''c'') message =
     Inr (success_result ''c'' t [],
          (client_with mh
             (sliding_window mh [user_message (reply_env t []) message] @
              [assistant_message (reply_env t []) t []])))"
proof -
  let ?e = "reply_env t []"
  let ?c1 = "(client0 mh)\<lparr>conversations := [''c'' \<mapsto> conv_with []], sessions := 1\<rparr>"
  have look: "lookup_or_create ?e (client0 mh) (Some ''c'') = Inr (''c'', ?c1)"
    by (simp add: lookup_or_create_def create_conversation_def Let_def client0_def init_def
        conv_with_def reply_env_def)
  have conv: "conversations ?c1 ''c'' = Some (conv_with [])"
    by simp
  show ?thesis
    unfolding send_message_reply [OF look conv]
    by (simp add: client_with_def conv_with_def client0_def init_def reply_env_def)
qed

lemma next_ask:
  "send_message (reply_env t []) (client_with mh h) (Some ''c'') message =
     Inr (success_result ''c'' t [],
          (client_with mh
             (sliding_window mh (h @ [user_message (reply_env t []) message]) @
              [assistant_message (reply_env t []) t []])))"
  unfolding send_message_reply [OF lookup_or_create_known [OF client_with_conv] client_with_conv]
  by (simp add: client_with_def conv_with_def client0_def init_def reply_env_def)

subsection \<open>The length of the history\<close>

lemma send_message_history_length:
  assumes "send_message e c (Some i) message = Inr (r, c')" and "0 < max_history c"
  shows "history_length c' i = step_length (max_history c) (history_length c i)"
    and "max_history c' = max_history c"
proof -
  from assms(1) obtain j c1 where look: "lookup_or_create e c (Some i) = Inr (j, c1)"
    by (cases "lookup_or_create e c (Some i)") (auto simp: send_message_def)
  then have j: "j = i" and len: "history_length c1 i = history_length c i"
    by (rule lookup_or_create_Some)+
  from look j have look': "lookup_or_create e c (Some i) = Inr (i, c1)"
    by simp
  have mh: "max_history c1 = max_history c"
    using look by (rule lookup_or_create_frame)
  obtain conv where conv: "conversations c1 i = Some conv"
    using lookup_or_create_frame(4) [OF look'] by blast
  obtain outcome fs where ex:
    "exchange e (output_dir c1) i (chat conv) message (files c1) = (outcome, fs)"
    by (cases "exchange e (output_dir c1) i (chat conv) message (files c1)")
  have "history_length c' i = step_length (max_history c) (history_length c i) \<and>
      max_history c' = max_history c"
  proof (cases outcome)
    case (Inl x)
    with assms ex conv len [symmetric] mh show ?thesis
      by (auto simp: send_message_unfold [OF look' conv] Let_def history_length_def
          step_length_def record_user_message_def length_sliding_window)
  next
    case (Inr tp)
    with assms ex conv len [symmetric] mh show ?thesis
      by (cases tp) (auto simp: send_message_unfold [OF look' conv] Let_def history_length_def
          step_length_def record_user_message_def length_sliding_window)
  qed
  then show "history_length c' i = step_length (max_history c) (history_length c i)"
    and "max_history c' = max_history c"
    by simp_all
qed

lemma history_bound_after_send:
  assumes "send_message e c (Some i) message = Inr (r, c')" and "0 < max_history c"
  shows "int (history_length c' i) \<le> max_history c + 1"
  using assms(2) by (simp add: send_message_history_length(1) [OF assms] step_length_def)

lemma send_messages_returns:
  assumes "chats_create e = None"
  shows "\<exists>c'. send_messages c (replicate n (e, cid, message)) = Inr c'"
proof (induction n arbitrary: c)
  case 0
  show ?case by simp
next
  case (Suc n)
  obtain i c1 where "lookup_or_create e c cid = Inr (i, c1)"
    using lookup_or_create_ok [of cid c e] assms by blast
  then obtain r c2 where "send_message e c cid message = Inr (r, c2)"
    using send_message_returns by blast
  with Suc.IH [of c2] show ?case by simp
qed

lemma send_messages_history_length:
  assumes "send_messages c (replicate n (e, Some i, message)) = Inr c'" and "0 < max_history c"
  shows "history_length c' i = (step_length (max_history c) ^^ n) (history_length c i)"
  using assms
proof (induction n arbitrary: c)
  case 0
  then show ?case by simp
next
  case (Suc n)
  from Suc.prems(1) obtain r c1 where first: "send_message e c (Some i) message = Inr (r, c1)"
    and rest: "send_messages c1 (replicate n (e, Some i, message)) = Inr c'"
    by (cases "send_message e c (Some i) message") auto
  note step = send_message_history_length [OF first Suc.prems(2)]
  from Suc.IH [OF rest] step Suc.prems(2)
  show ?case by (simp add: funpow_swap1)
qed

lemma sixteen_steps: "(step_length 30 ^^ 16) 0 = 31"
  by code_simp

text \<open>
  Claim C1: for every sequence of \<open>send_message\<close> calls on one conversation the
  history never holds more than \<open>max_history\<close> turns after a call returns. The
  code does not keep this bound. The window is applied after the user turn only;
  the reply's turn is appended after it, so a full window holds
  \<open>max_history + 1\<close> turns when the call returns (\<open>send_message_history_length\<close>,
  \<open>history_bound_after_send\<close>). With the default of 30, sixteen answered calls
  on the conversation \<open>c\<close> of a new client leave 31 turns.
\<close>

theorem default_window_holds_31_turns:
  "(case send_messages (client0 default_max_history) (replicate 16 (ask ''hello'' ''hi'')) of
      Inl _ \<Rightarrow> None
    | Inr c' \<Rightarrow> Some (history_length c' ''c'')) = Some 31"
proof -
  have created: "chats_create (reply_env (Some ''hi'') []) = None"
    by (simp add: reply_env_def)
  have mh: "max_history (client0 default_max_history) = 30"
    by (simp add: client0_def init_def default_max_history_def)
  obtain c' where run:
    "send_messages (client0 default_max_history)
       (replicate 16 (reply_env (Some ''hi'') [], Some ''c'', ''hello'')) = Inr c'"
    using send_messages_returns [OF created] by blast
  have "history_length c' ''c'' = (step_length 30 ^^ 16) (history_length (client0 default_max_history) ''c'')"
    using send_messages_history_length [OF run] mh by simp
  also have "history_length (client0 default_max_history) ''c'' = 0"
    by (simp add: history_length_def client0_empty)
  finally show ?thesis
    using run by (simp add: ask_def sixteen_steps)
qed

text \<open>
  Claim C2: with a window of 2, three answered calls leave exactly the last user
  turn and its assistant turn. The code leaves three turns: the assistant turn of
  the second call, the user turn of the third and the assistant turn of the third.
\<close>

theorem window_two_holds_three_turns:
  "(case send_messages (client0 2) [ask ''one'' ''r1'', ask ''two'' ''r2'', ask ''three'' ''r3''] of
      Inl _ \<Rightarrow> None
    | Inr c' \<Rightarrow>
        map_option (map (\<lambda>turn. (get turn ''role'', get turn ''content'')) \<circ> history)
          (conversations c' ''c'')) =
   Some [(Some (PyStr ''assistant''), Some (PyStr ''r2'')),
         (Some (PyStr ''user''), Some (PyStr ''three'')),
         (Some (PyStr ''assistant''), Some (PyStr ''r3''))]"
  by (simp add: ask_def first_ask next_ask sliding_window_def slice_from_def client_with_conv
      conv_with_def user_message_fields assistant_message_fields)

text \<open>
  Claim C6: when the user turn makes the history longer than the maximum, the
  history is cut to its most recent \<open>max_history\<close> turns. The code does so for
  every positive maximum (\<open>sliding_window_keeps_most_recent\<close>). With the maximum
  0 the slice \<^verbatim>\<open>history[-0:]\<close> is the whole list: a history of two turns holds
  three after the user turn, and none is dropped.
\<close>

theorem window_zero_drops_nothing:
  "history (record_user_message (reply_env None []) 0 ''hello'' (conv_with [turn1, turn2])) =
     [turn1, turn2, user_message (reply_env None []) ''hello'']"
  by (simp add: record_user_message_def sliding_window_zero conv_with_def)

subsection \<open>Failures of the exchange\<close>

text \<open>
  Claim C3, amended: when \<^verbatim>\<open>chat.send_message\<close> raises \<open>x\<close>, the call returns
  the failure result, whose \<open>success\<close> is \<open>False\<close> and whose \<open>error\<close> is
  \<open>str x\<close> as it is; the history is the one after the user turn was recorded,
  followed by one \<open>system\<close> turn with the content \<open>Error: \<close> and \<open>str x\<close>; no
  file is written. The hypotheses name the conversation the call works on: the
  one found under the id, or the one created for it.
\<close>

theorem send_message_remote_failure:
  assumes "lookup_or_create e c cid = Inr (i, c1)" and "conversations c1 i = Some conv"
    and "chat_send_message e (chat conv) message = Inl x"
  shows "\<exists>c' conv'. send_message e c cid message = Inr (failure_result i x, c') \<and>
           conversations c' i = Some conv' \<and>
           history conv' =
             history (record_user_message e (max_history c) message conv) @ [error_message e x] \<and>
           get (error_message e x) ''role'' = Some (PyStr ''system'') \<and>
           get (error_message e x) ''content'' = Some (PyStr (''Error: '' @ str x)) \<and>
           get (failure_result i x) ''success'' = Some (PyBool False) \<and>
           get (failure_result i x) ''error'' = Some (PyStr (str x)) \<and>
           files c' = files c"
  using assms(3) lookup_or_create_frame(1,2) [OF assms(1)]
  by (simp add: send_message_unfold [OF assms(1,2)] Let_def exchange_raises
      error_message_fields failure_result_fields)

text \<open>A call on a conversation of two turns whose remote fails with a quota
  message.\<close>

theorem send_message_remote_failure_witness:
  "\<exists>c' conv'. send_message (failing_env ''quota exceeded'') (client_with 30 [turn1, turn2]) (Some ''c'') ''hello''
        = Inr (failure_result ''c'' (Exception ''quota exceeded''), c') \<and>
      conversations c' ''c'' = Some conv' \<and>
      history conv' = [turn1, turn2, user_message (failing_env ''quota exceeded'') ''hello'',
                       error_message (failing_env ''quota exceeded'') (Exception ''quota exceeded'')] \<and>
      files c' = []"
  using send_message_remote_failure [of "failing_env ''quota exceeded''" "client_with 30 [turn1, turn2]"
          "Some ''c''" "''c''" "client_with 30 [turn1, turn2]" "conv_with [turn1, turn2]" "''hello''"
          "Exception ''quota exceeded''"]
  by (simp add: lookup_or_create_known client_with_conv failing_env_send record_user_message_def
      sliding_window_def client_with_def client0_def init_def conv_with_def) blast

text \<open>The error description of C3 as the claim has it, non-empty, fails for an
  exception without a message: the result's \<open>error\<close> is the empty string.\<close>

theorem send_message_empty_error_description:
  "(case send_message (failing_env []) (client_with 30 []) (Some ''c'') ''hello'' of
      Inl _ \<Rightarrow> False
    | Inr (r, c') \<Rightarrow> get r ''success'' = Some (PyBool False) \<and> get r ''error'' = Some (PyStr []))"
  by (simp add: send_message_unfold [OF lookup_or_create_known [OF client_with_conv] client_with_conv]
      Let_def exchange_raises failing_env_send failure_result_fields)

text \<open>
  Claim C4, amended: when the id is a key of the store, or the conversation can
  be created, \<open>send_message\<close> returns a result whatever the remote call and the
  saving of the images do, and the result tells which it was. When the exchange
  raises \<open>err\<close>, the result is well formed, carries the id, \<open>success = False\<close>
  and \<open>error = str err\<close>; when the exchange completes, the result is well
  formed, carries the id, \<open>success = True\<close>, the image paths and no \<open>error\<close>
  field. In both cases the files are those the exchange left. When the id is not
  a key and \<^verbatim>\<open>chats.create\<close> raises, the exception leaves \<open>send_message\<close>:
  the creation is outside the \<^verbatim>\<open>try\<close>.
\<close>

theorem send_message_catches_exchange_failures:
  "((\<exists>i. cid = Some i \<and> conversations c i \<noteq> None) \<or> chats_create e = None \<longrightarrow>
      (\<exists>i c1 conv. lookup_or_create e c cid = Inr (i, c1) \<and> conversations c1 i = Some conv \<and>
         (case exchange e (output_dir c1) i (chat conv) message (files c1) of
            (Inl err, fs) \<Rightarrow>
              \<exists>r c'. send_message e c cid message = Inr (r, c') \<and> well_formed_result r \<and>
                get r ''conversation_id'' = Some (PyStr i) \<and>
                get r ''success'' = Some (PyBool False) \<and>
                get r ''error'' = Some (PyStr (str err)) \<and> files c' = fs
          | (Inr (text_content, image_paths), fs) \<Rightarrow>
              \<exists>r c'. send_message e c cid message = Inr (r, c') \<and> well_formed_result r \<and>
                get r ''conversation_id'' = Some (PyStr i) \<and>
                get r ''success'' = Some (PyBool True) \<and>
                get r ''error'' = None \<and>
                get r ''image_paths'' = Some (PyList image_paths) \<and> files c' = fs))) \<and>
   ((\<forall>i. cid = Some i \<longrightarrow> conversations c i = None) \<and> chats_create e = Some x \<longrightarrow>
      send_message e c cid message = Inl x)"
proof (intro conjI impI)
  assume "(\<exists>i. cid = Some i \<and> conversations c i \<noteq> None) \<or> chats_create e = None"
  then obtain i c1 where look: "lookup_or_create e c cid = Inr (i, c1)"
    using lookup_or_create_ok by blast
  then obtain conv where conv: "conversations c1 i = Some conv"
    using lookup_or_create_frame(4) by blast
  have outcome: "case exchange e (output_dir c1) i (chat conv) message (files c1) of
            (Inl err, fs) \<Rightarrow>
              \<exists>r c'. send_message e c cid message = Inr (r, c') \<and> well_formed_result r \<and>
                get r ''conversation_id'' = Some (PyStr i) \<and>
                get r ''success'' = Some (PyBool False) \<and>
                get r ''error'' = Some (PyStr (str err)) \<and> files c' = fs
          | (Inr (text_content, image_paths), fs) \<Rightarrow>
              \<exists>r c'. send_message e c cid message = Inr (r, c') \<and> well_formed_result r \<and>
                get r ''conversation_id'' = Some (PyStr i) \<and>
                get r ''success'' = Some (PyBool True) \<and>
                get r ''error'' = None \<and>
                get r ''image_paths'' = Some (PyList image_paths) \<and> files c' = fs"
    by (simp add: send_message_unfold [OF look conv] Let_def well_formed_failure
        well_formed_success failure_result_fields success_result_fields
        split: prod.splits sum.splits)
  show "\<exists>i c1 conv. lookup_or_create e c cid = Inr (i, c1) \<and>
      conversations c1 i = Some conv \<and>
         (case exchange e (output_dir c1) i (chat conv) message (files c1) of
            (Inl err, fs) \<Rightarrow>
              \<exists>r c'. send_message e c cid message = Inr (r, c') \<and> well_formed_result r \<and>
                get r ''conversation_id'' = Some (PyStr i) \<and>
                get r ''success'' = Some (PyBool False) \<and>
                get r ''error'' = Some (PyStr (str err)) \<and> files c' = fs
          | (Inr (text_content, image_paths), fs) \<Rightarrow>
              \<exists>r c'. send_message e c cid message = Inr (r, c') \<and> well_formed_result r \<and>
                get r ''conversation_id'' = Some (PyStr i) \<and>
                get r ''success'' = Some (PyBool True) \<and>
                get r ''error'' = None \<and>
                get r ''image_paths'' = Some (PyList image_paths) \<and> files c' = fs)"
    by (rule exI [of _ i], rule exI [of _ c1], rule exI [of _ conv]) (simp add: look conv outcome)
next
  assume "(\<forall>i. cid = Some i \<longrightarrow> conversations c i = None) \<and> chats_create e = Some x"
  then have "lookup_or_create e c cid = Inl x"
    using lookup_or_create_raises by blast
  then show "send_message e c cid message = Inl x"
    by (simp add: send_message_def)
qed

text \<open>A failing remote and an answering one on a new client, and a client
  whose SDK cannot open a session.\<close>

theorem send_message_catches_exchange_failures_witness:
  "(\<exists>r c'. send_message (failing_env ''quota exceeded'') (client0 30) (Some ''c'') ''hello'' = Inr (r, c') \<and>
      well_formed_result r \<and> get r ''conversation_id'' = Some (PyStr ''c'') \<and>
      get r ''success'' = Some (PyBool False) \<and> get r ''error'' = Some (PyStr ''quota exceeded'')) \<and>
   (\<exists>r c'. send_message (reply_env (Some ''hi'') []) (client0 30) (Some ''c'') ''hello'' = Inr (r, c') \<and>
      well_formed_result r \<and> get r ''conversation_id'' = Some (PyStr ''c'') \<and>
      get r ''success'' = Some (PyBool True) \<and> get r ''error'' = None) \<and>
   send_message no_session_env (client0 30) (Some ''c'') ''hello'' = Inl (Exception ''model not found'')"
proof -
  let ?c = "client0 30"
  have creatable: "chats_create (failing_env ''quota exceeded'') = None"
    "chats_create (reply_env (Some ''hi'') []) = None"
    by (simp_all add: failing_env_def reply_env_def)
  have raised: "exchange (failing_env ''quota exceeded'') out i ch ''hello'' fs =
      (Inl (Exception ''quota exceeded''), fs)" for out i ch fs
    by (simp add: exchange_raises failing_env_send)
  from send_message_catches_exchange_failures [of "Some ''c''" ?c "failing_env ''quota exceeded''" "''hello''"] creatable(1)
  obtain i c1 conv where
    "lookup_or_create (failing_env ''quota exceeded'') ?c (Some ''c'') = Inr (i, c1)"
    "\<exists>r c'. send_message (failing_env ''quota exceeded'') ?c (Some ''c'') ''hello'' = Inr (r, c') \<and>
       well_formed_result r \<and> get r ''conversation_id'' = Some (PyStr i) \<and>
       get r ''success'' = Some (PyBool False) \<and>
       get r ''error'' = Some (PyStr (str (Exception ''quota exceeded'')))"
    by (auto simp: raised)
  then have failed: "\<exists>r c'. send_message (failing_env ''quota exceeded'') ?c (Some ''c'') ''hello'' = Inr (r, c') \<and>
      well_formed_result r \<and> get r ''conversation_id'' = Some (PyStr ''c'') \<and>
      get r ''success'' = Some (PyBool False) \<and> get r ''error'' = Some (PyStr ''quota exceeded'')"
    using lookup_or_create_Some(1) by fastforce
  from send_message_catches_exchange_failures [of "Some ''c''" ?c "reply_env (Some ''hi'') []" "''hello''"] creatable(2)
  obtain j c2 conv2 where
    "lookup_or_create (reply_env (Some ''hi'') []) ?c (Some ''c'') = Inr (j, c2)"
    "\<exists>r c'. send_message (reply_env (Some ''hi'') []) ?c (Some ''c'') ''hello'' = Inr (r, c') \<and>
       well_formed_result r \<and> get r ''conversation_id'' = Some (PyStr j) \<and>
       get r ''success'' = Some (PyBool True) \<and> get r ''error'' = None"
    by (auto simp: exchange_reply_env)
  then have answered: "\<exists>r c'. send_message (reply_env (Some ''hi'') []) ?c (Some ''c'') ''hello'' = Inr (r, c') \<and>
      well_formed_result r \<and> get r ''conversation_id'' = Some (PyStr ''c'') \<and>
      get r ''success'' = Some (PyBool True) \<and> get r ''error'' = None"
    using lookup_or_create_Some(1) by fastforce
  have "send_message no_session_env ?c (Some ''c'') ''hello'' = Inl (Exception ''model not found'')"
    using send_message_catches_exchange_failures [of "Some ''c''" ?c no_session_env "''hello''" "Exception ''model not found''"]
    by (simp add: client0_empty no_session_env_def reply_env_def)
  with failed answered show ?thesis by blast
qed

text \<open>Against C4 as the claim has it: a call on an unknown id whose creation
  fails returns no result, the exception reaches the caller.\<close>

theorem send_message_propagates_creation_failure:
  "send_message no_session_env (client0 30) (Some ''c'') ''hello'' = Inl (Exception ''model not found'')"
  by (simp add: send_message_def lookup_or_create_def create_conversation_def client0_empty
      no_session_env_def reply_env_def)

text \<open>
  Claim C9, amended: after a call on an existing conversation whose remote call
  raises, the user turn and the last-active time stay. While the prior history is
  shorter than \<open>max_history\<close>, the history is the prior one, the user turn and
  the system turn. From \<open>max_history\<close> turns on (for a positive maximum) the
  window has dropped the oldest turns before the remote call: the most recent
  \<open>max_history\<close> turns up to the user turn remain, and the system turn follows.
  The chat handle and the creation time are unchanged.
\<close>

theorem failed_send_keeps_user_turn:
  assumes "conversations c i = Some conv" and "chat_send_message e (chat conv) message = Inl x"
  shows "\<exists>r c' conv'. send_message e c (Some i) message = Inr (r, c') \<and>
           conversations c' i = Some conv' \<and>
           (int (length (history conv)) < max_history c \<longrightarrow>
              history conv' = history conv @ [user_message e message, error_message e x]) \<and>
           (0 < max_history c \<and> max_history c \<le> int (length (history conv)) \<longrightarrow>
              history conv' =
                drop (length (history conv) + 1 - nat (max_history c))
                  (history conv @ [user_message e message]) @ [error_message e x]) \<and>
           last_active conv' = now e LastActive \<and>
           chat conv' = chat conv \<and> created_at conv' = created_at conv"
  using assms(2)
  by (simp add: send_message_unfold [OF lookup_or_create_known [OF assms(1)] assms(1)] Let_def
      exchange_raises record_user_message_def sliding_window_fits sliding_window_pos)

text \<open>A failed call with room in the window, and one with a full window of 2.\<close>

theorem failed_send_keeps_user_turn_witness:
  "(\<exists>r c' conv'. send_message (failing_env ''quota exceeded'') (client_with 30 [turn1, turn2]) (Some ''c'') ''hello''
        = Inr (r, c') \<and> conversations c' ''c'' = Some conv' \<and>
      history conv' = [turn1, turn2, user_message (failing_env ''quota exceeded'') ''hello'',
                       error_message (failing_env ''quota exceeded'') (Exception ''quota exceeded'')] \<and>
      chat conv' = Chat 0 \<and> created_at conv' = noon) \<and>
   (\<exists>r c' conv'. send_message (failing_env ''quota exceeded'') (client_with 2 [turn1, turn2]) (Some ''c'') ''hello''
        = Inr (r, c') \<and> conversations c' ''c'' = Some conv' \<and>
      history conv' = [turn2, user_message (failing_env ''quota exceeded'') ''hello'',
                       error_message (failing_env ''quota exceeded'') (Exception ''quota exceeded'')])"
proof -
  let ?e = "failing_env ''quota exceeded''"
  have mh: "max_history (client_with m h) = m" for m h
    by (simp add: client_with_def client0_def init_def)
  have raised: "chat_send_message ?e (chat (conv_with [turn1, turn2])) ''hello'' =
      Inl (Exception ''quota exceeded'')"
    by (rule failing_env_send)
  have fits: "conversations (client_with 30 [turn1, turn2]) ''c'' = Some (conv_with [turn1, turn2])"
    and full: "conversations (client_with 2 [turn1, turn2]) ''c'' = Some (conv_with [turn1, turn2])"
    by (rule client_with_conv)+
  show ?thesis
    using failed_send_keeps_user_turn [OF fits raised] failed_send_keeps_user_turn [OF full raised]
    by (simp add: mh conv_with_def) blast
qed

text \<open>Against C9 as the claim has it: with a full window of 2 the history after
  the failed call is not the prior history with the two new turns; the oldest
  turn is gone.\<close>

theorem failed_send_drops_oldest_turn:
  "(case send_message (failing_env ''quota exceeded'') (client_with 2 [turn1, turn2]) (Some ''c'') ''hello'' of
      Inl _ \<Rightarrow> False
    | Inr (r, c') \<Rightarrow>
        map_option history (conversations c' ''c'') =
          Some [turn2, user_message (failing_env ''quota exceeded'') ''hello'',
                error_message (failing_env ''quota exceeded'') (Exception ''quota exceeded'')] \<and>
        map_option history (conversations c' ''c'') \<noteq>
          Some ([turn1, turn2] @ [user_message (failing_env ''quota exceeded'') ''hello'',
                error_message (failing_env ''quota exceeded'') (Exception ''quota exceeded'')]))"
proof -
  let ?e = "failing_env ''quota exceeded''"
  let ?c = "client_with 2 [turn1, turn2]"
  have "send_message ?e ?c (Some ''c'') ''hello'' =
      Inr (failure_result ''c'' (Exception ''quota exceeded''),
           ?c\<lparr>conversations := (conversations ?c)(''c'' \<mapsto>
                (record_user_message ?e (max_history ?c) ''hello'' (conv_with [turn1, turn2]))
                  \<lparr>history := history (record_user_message ?e (max_history ?c) ''hello''
                      (conv_with [turn1, turn2])) @ [error_message ?e (Exception ''quota exceeded'')]\<rparr>),
              files := files ?c\<rparr>)"
    by (simp add: send_message_unfold [OF lookup_or_create_known [OF client_with_conv] client_with_conv]
        Let_def exchange_raises failing_env_send)
  then show ?thesis
    by (simp add: record_user_message_def sliding_window_def slice_from_def conv_with_def
        client_with_def client0_def init_def)
qed

text \<open>
  Claim C10: the result has the keys \<open>conversation_id\<close>, \<open>text\<close>,
  \<open>image_paths\<close>, \<open>success\<close> and \<open>success = True\<close> when the body of the
  \<^verbatim>\<open>try\<close> completes, and the keys \<open>conversation_id\<close>, \<open>error\<close>,
  \<open>success\<close> and \<open>success = False\<close> when it raises; so a failure has neither
  \<open>text\<close> nor \<open>image_paths\<close>, and a success has no \<open>error\<close>.
\<close>

theorem send_message_result_fields:
  assumes "lookup_or_create e c cid = Inr (i, c1)" and "conversations c1 i = Some conv"
    and "exchange e (output_dir c1) i (chat conv) message (files c1) = (outcome, fs)"
  shows "\<exists>r c'. send_message e c cid message = Inr (r, c') \<and>
           (case outcome of
              Inr _ \<Rightarrow> keys r = [''conversation_id'', ''text'', ''image_paths'', ''success''] \<and>
                        get r ''success'' = Some (PyBool True) \<and> get r ''error'' = None
            | Inl _ \<Rightarrow> keys r = [''conversation_id'', ''error'', ''success''] \<and>
                        get r ''success'' = Some (PyBool False) \<and>
                        get r ''text'' = None \<and> get r ''image_paths'' = None)"
proof (cases outcome)
  case (Inl x)
  with assms(3) show ?thesis
    by (simp add: send_message_unfold [OF assms(1,2)] Let_def failure_result_fields failure_keys_def)
next
  case (Inr tp)
  with assms(3) show ?thesis
    by (cases tp) (simp add: send_message_unfold [OF assms(1,2)] Let_def success_result_fields
        success_keys_def)
qed

text \<open>An answered call and a failed one.\<close>

theorem send_message_result_fields_witness:
  "(\<exists>r c'. send_message (reply_env (Some ''hi'') []) (client_with 30 []) (Some ''c'') ''hello'' = Inr (r, c') \<and>
      keys r = [''conversation_id'', ''text'', ''image_paths'', ''success''] \<and>
      get r ''success'' = Some (PyBool True) \<and> get r ''error'' = None) \<and>
   (\<exists>r c'. send_message (failing_env ''quota exceeded'') (client_with 30 []) (Some ''c'') ''hello'' = Inr (r, c') \<and>
      keys r = [''conversation_id'', ''error'', ''success''] \<and>
      get r ''success'' = Some (PyBool False) \<and> get r ''text'' = None \<and> get r ''image_paths'' = None)"
proof -
  let ?c = "client_with 30 []"
  have known: "lookup_or_create e ?c (Some ''c'') = Inr (''c'', ?c)" for e
    by (simp add: lookup_or_create_known client_with_conv)
  have conv: "conversations ?c ''c'' = Some (conv_with [])"
    by (rule client_with_conv)
  have replied: "exchange (reply_env (Some ''hi'') []) (output_dir ?c) ''c'' (chat (conv_with [])) ''hello''
      (files ?c) = (Inr (Some ''hi'', []), files ?c)"
    by (rule exchange_reply_env)
  have raised: "exchange (failing_env ''quota exceeded'') (output_dir ?c) ''c'' (chat (conv_with [])) ''hello''
      (files ?c) = (Inl (Exception ''quota exceeded''), files ?c)"
    by (simp add: exchange_raises failing_env_send)
  show ?thesis
    using send_message_result_fields [OF known conv replied]
      send_message_result_fields [OF known conv raised]
    by simp
qed

subsection \<open>The saved images\<close>

lemma inline_from_simps:
  "inline_from i [] = []"
  "inline_from i (p # ps) =
     (case inline_data p of
        None \<Rightarrow> inline_from (Suc i) ps
      | Some b \<Rightarrow> (i, b) # inline_from (Suc i) ps)"
  by (simp_all add: inline_from_def split: option.splits)

lemma inline_from_positions: "k \<in> fst ` set (inline_from i ps) \<Longrightarrow> i \<le> k"
proof (induction ps arbitrary: i)
  case Nil
  then show ?case by (simp add: inline_from_simps)
next
  case (Cons p ps)
  then show ?case
    by (cases "inline_data p") (fastforce simp: inline_from_simps dest: Cons.IH)+
qed

lemma distinct_inline_from: "distinct (map fst (inline_from i ps))"
proof (induction ps arbitrary: i)
  case Nil
  show ?case by (simp add: inline_from_simps)
next
  case (Cons p ps)
  show ?case
  proof (cases "inline_data p")
    case None
    then show ?thesis by (simp add: inline_from_simps Cons.IH)
  next
    case (Some b)
    have "i \<notin> fst ` set (inline_from (Suc i) ps)"
      using inline_from_positions [of i "Suc i" ps] by auto
    with Some show ?thesis by (simp add: inline_from_simps Cons.IH)
  qed
qed

lemma digit_char_inject:
  assumes "a < 10" and "b < 10" and "digit_char a = digit_char b"
  shows "a = b"
proof -
  have "distinct ''0123456789''" by simp
  moreover have "a < length ''0123456789''" "b < length ''0123456789''"
    using assms by simp_all
  moreover have "''0123456789'' ! a = ''0123456789'' ! b"
    using assms by (simp add: digit_char_def)
  ultimately show ?thesis
    by (simp only: nth_eq_iff_index_eq)
qed

lemma digit_char_mod: "digit_char (n mod 10) = digit_char n"
  by (simp add: digit_char_def)

lemma digit_char_is_digit: "digit_char n \<in> set ''0123456789''"
  unfolding digit_char_def by (rule nth_mem) simp

lemma str_nat_not_Nil: "str_nat n \<noteq> []"
  by (subst str_nat.simps) simp

lemma str_nat_digit: "n < 10 \<Longrightarrow> str_nat n = [digit_char n]"
  by (subst str_nat.simps) simp

lemma str_nat_digits: "set (str_nat n) \<subseteq> set ''0123456789''"
proof (induction n rule: str_nat.induct)
  case (1 n)
  show ?case
  proof (cases "n < 10")
    case True
    then show ?thesis
      using digit_char_is_digit [of n] by (subst str_nat.simps) simp
  next
    case False
    with 1 digit_char_is_digit [of n] show ?thesis
      by (subst str_nat.simps) simp
  qed
qed

lemma str_nat_inject: "str_nat n = str_nat m \<Longrightarrow> n = m"
proof (induction n arbitrary: m rule: str_nat.induct)
  case (1 n)
  show ?case
  proof (cases "n < 10")
    case small_n: True
    show ?thesis
    proof (cases "m < 10")
      case True
      with small_n "1.prems" show ?thesis
        by (simp add: str_nat.simps [of n] str_nat.simps [of m] digit_char_inject)
    next
      case False
      with small_n "1.prems" str_nat_not_Nil [of "m div 10"] show ?thesis
        by (simp add: str_nat.simps [of n] str_nat.simps [of m])
    qed
  next
    case large_n: False
    show ?thesis
    proof (cases "m < 10")
      case True
      with large_n "1.prems" str_nat_not_Nil [of "n div 10"] show ?thesis
        by (simp add: str_nat.simps [of n] str_nat.simps [of m])
    next
      case False
      with large_n "1.prems" have heads: "str_nat (n div 10) = str_nat (m div 10)"
        and lasts: "digit_char n = digit_char m"
        by (simp_all add: str_nat.simps [of n] str_nat.simps [of m])
      from "1.IH" [OF large_n heads] have "n div 10 = m div 10" .
      moreover from lasts have "n mod 10 = m mod 10"
        using digit_char_inject [of "n mod 10" "m mod 10"] by (simp add: digit_char_mod)
      ultimately show ?thesis
        by (metis div_mult_mod_eq)
    qed
  qed
qed

lemma last_segment_eq:
  assumes "x \<notin> set s" and "x \<notin> set t" and "a @ x # s = b @ x # t"
  shows "s = t"
proof -
  have upto: "takeWhile (\<lambda>y. y \<noteq> x) (rev u @ x # r) = rev u" if "x \<notin> set u" for u r
    using that by (auto simp: takeWhile_tail takeWhile_eq_all_conv)
  from assms(3) have "rev (a @ x # s) = rev (b @ x # t)" by simp
  then have "rev s @ x # rev a = rev t @ x # rev b" by simp
  then have "takeWhile (\<lambda>y. y \<noteq> x) (rev s @ x # rev a) = takeWhile (\<lambda>y. y \<noteq> x) (rev t @ x # rev b)"
    by simp
  then have "rev s = rev t"
    by (simp only: upto [OF assms(1)] upto [OF assms(2)])
  then show ?thesis by simp
qed

lemma os_path_join_inject:
  assumes "os_path_join out (p @ x # a) = os_path_join out (p @ x # b)"
  shows "a = b"
proof -
  have "hd (p @ x # a) = hd (p @ x # b)"
    by (cases p) simp_all
  with assms show ?thesis
    by (simp add: os_path_join_def split: if_splits)
qed

lemma image_path_inject:
  assumes "image_path e out cid k = image_path e out cid l"
  shows "k = l"
proof -
  let ?stamp = "\<lambda>k. strftime (now e (PartTimestamp k))"
  from assms have "?stamp k @ ''_'' @ str_nat k @ ''.png'' = ?stamp l @ ''_'' @ str_nat l @ ''.png''"
    unfolding image_path_def by (auto dest: os_path_join_inject)
  then have "(?stamp k @ CHR ''_'' # str_nat k) @ ''.png'' = (?stamp l @ CHR ''_'' # str_nat l) @ ''.png''"
    by simp
  then have eq: "?stamp k @ CHR ''_'' # str_nat k = ?stamp l @ CHR ''_'' # str_nat l"
    by (simp only: append_same_eq)
  have "CHR ''_'' \<notin> set (str_nat k)" "CHR ''_'' \<notin> set (str_nat l)"
    using str_nat_digits [of k] str_nat_digits [of l] by auto
  then have "str_nat k = str_nat l"
    using eq by (rule last_segment_eq)
  then show ?thesis by (rule str_nat_inject)
qed

lemma distinct_image_paths:
  "distinct (map (image_path e out cid \<circ> fst) (inline_from i ps))"
proof -
  have inj: "inj_on (image_path e out cid) A" for A
    by (rule inj_onI) (rule image_path_inject)
  have "distinct (map (image_path e out cid) (map fst (inline_from i ps)))"
    by (rule iffD2 [OF distinct_map]) (intro conjI distinct_inline_from inj)
  then show ?thesis by simp
qed

lemma save_parts_paths:
  assumes "save_parts e out cid i ps acc fs = (Inr paths, fs')"
  shows "paths = acc @ map (image_path e out cid \<circ> fst) (inline_from i ps) \<and>
         (\<exists>new. fs' = fs @ new \<and> list_all2 (saved_as e out cid) new (inline_from i ps))"
  using assms
proof (induction ps arbitrary: i acc fs)
  case Nil
  then show ?case by (simp add: inline_from_simps)
next
  case (Cons p ps)
  show ?case
  proof (cases "inline_data p")
    case None
    with Cons.prems have "save_parts e out cid (Suc i) ps acc fs = (Inr paths, fs')"
      by simp
    from Cons.IH [OF this] None show ?thesis
      by (simp add: inline_from_simps)
  next
    case (Some b)
    let ?path = "image_path e out cid i"
    from Cons.prems Some obtain img where
      decoded: "image_open e (payload_bytes b) = Inr img" and
      rest: "save_parts e out cid (Suc i) ps (acc @ [?path]) (fs @ [(?path, img)]) = (Inr paths, fs')"
      by (auto simp: Let_def image_path_def payload_bytes_def split: option.splits sum.splits)
    from Cons.IH [OF rest] obtain new where
      paths: "paths = (acc @ [?path]) @ map (image_path e out cid \<circ> fst) (inline_from (Suc i) ps)"
      and new: "fs' = (fs @ [(?path, img)]) @ new"
        "list_all2 (saved_as e out cid) new (inline_from (Suc i) ps)"
      by blast
    have "fs' = fs @ ((?path, img) # new)"
      using new(1) by simp
    moreover have "list_all2 (saved_as e out cid) ((?path, img) # new) ((i, b) # inline_from (Suc i) ps)"
      using new(2) decoded by (simp add: saved_as_def)
    ultimately show ?thesis
      using paths Some by (auto simp: inline_from_simps)
  qed
qed

lemma extract_images_paths:
  assumes "extract_images e out cid r fs = (Inr paths, fs')"
  shows "paths = map (image_path e out cid \<circ> fst) (inline_payloads (response_parts r)) \<and>
         (\<exists>new. fs' = fs @ new \<and>
            list_all2 (saved_as e out cid) new (inline_payloads (response_parts r)))"
proof (cases "\<exists>cand cands ct ps. candidates r = Some (cand # cands) \<and> content cand = Some ct \<and>
    parts ct = Some ps")
  case True
  then obtain cand cands ct ps where r: "candidates r = Some (cand # cands)"
    "content cand = Some ct" "parts ct = Some ps"
    by blast
  with assms have "save_parts e out cid 0 ps [] fs = (Inr paths, fs')"
    by (simp add: extract_images_def)
  from save_parts_paths [OF this] r show ?thesis
    by (simp add: inline_payloads_def response_parts_def)
next
  case False
  with assms have "paths = [] \<and> fs' = fs \<and> response_parts r = []"
    by (auto simp: extract_images_def response_parts_def split: option.splits list.splits)
  then show ?thesis
    by (simp add: inline_payloads_def inline_from_simps)
qed

text \<open>
  Claim C5: after a successful call the \<open>image_paths\<close> of the result are the
  paths of the inline payloads of the response's content parts, one path for each
  payload and in the order of the parts; the paths differ from each other, and
  the files the call has written are, in the same order, the images decoded from
  those payloads, each under its path.
\<close>

theorem image_paths_follow_inline_payloads:
  assumes "lookup_or_create e c cid = Inr (i, c1)" and "conversations c1 i = Some conv"
    and "chat_send_message e (chat conv) message = Inr resp"
    and "send_message e c cid message = Inr (r, c')"
    and "get r ''success'' = Some (PyBool True)"
  shows "get r ''image_paths'' =
           Some (PyList (map (image_path e (output_dir c) i \<circ> fst)
                           (inline_payloads (response_parts resp)))) \<and>
         distinct (map (image_path e (output_dir c) i \<circ> fst) (inline_payloads (response_parts resp))) \<and>
         (\<exists>new. files c' = files c @ new \<and>
            list_all2 (saved_as e (output_dir c) i) new (inline_payloads (response_parts resp)))"
proof -
  note frame = lookup_or_create_frame(1,3) [OF assms(1)]
  obtain outcome fs where ex:
    "extract_images e (output_dir c1) i resp (files c1) = (outcome, fs)"
    by (cases "extract_images e (output_dir c1) i resp (files c1)")
  show ?thesis
  proof (cases outcome)
    case (Inl x)
    with ex assms(3,4,5) show ?thesis
      by (auto simp: send_message_unfold [OF assms(1,2)] Let_def exchange_def
          failure_result_fields)
  next
    case (Inr paths)
    with ex assms(3,4) have r: "r = success_result i (response_text resp) paths" and fs: "files c' = fs"
      by (auto simp: send_message_unfold [OF assms(1,2)] Let_def exchange_def)
    from extract_images_paths [of e "output_dir c1" i resp "files c1" paths fs] ex Inr
    have "paths = map (image_path e (output_dir c1) i \<circ> fst) (inline_payloads (response_parts resp))"
      and "\<exists>new. fs = files c1 @ new \<and>
            list_all2 (saved_as e (output_dir c1) i) new (inline_payloads (response_parts resp))"
      by simp_all
    with r fs frame show ?thesis
      by (simp add: success_result_fields inline_payloads_def distinct_image_paths)
  qed
qed

lemma strftime_noon: "strftime noon = ''20250309120000''"
  by code_simp

lemma pixels_payloads:
  "inline_payloads pixels = [(1, Blob (Some ''PNG-a'')), (3, Blob (Some ''PNG-b''))]"
  by (simp add: inline_payloads_def inline_from_simps pixels_def)

lemma reply_env_image_path:
  "image_path (reply_env t ps) ''output'' ''c'' (Suc 0) = ''output/c_20250309120000_1.png''"
  "image_path (reply_env t ps) ''output'' ''c'' 3 = ''output/c_20250309120000_3.png''"
  by (simp_all add: image_path_def reply_env_def strftime_noon str_nat_digit digit_char_def
      os_path_join_def)

lemma exchange_pixels:
  "exchange (reply_env t pixels) ''output'' ''c'' ch message [] =
     (Inr (t, [''output/c_20250309120000_1.png'', ''output/c_20250309120000_3.png'']),
      [(''output/c_20250309120000_1.png'', Image ''PNG-a''),
       (''output/c_20250309120000_3.png'', Image ''PNG-b'')])"
  by (simp add: exchange_def extract_images_def reply_env_def pixels_def Let_def strftime_noon
      str_nat_digit digit_char_def os_path_join_def)

text \<open>A response of four parts, the second and the fourth with inline data.\<close>

theorem image_paths_follow_inline_payloads_witness:
  "\<exists>r c'. send_message (reply_env (Some ''hi'') pixels) (client_with 30 []) (Some ''c'') ''hello'' = Inr (r, c') \<and>
     get r ''image_paths'' =
       Some (PyList [''output/c_20250309120000_1.png'', ''output/c_20250309120000_3.png'']) \<and>
     inline_payloads pixels = [(1, Blob (Some ''PNG-a'')), (3, Blob (Some ''PNG-b''))] \<and>
     files c' = [(''output/c_20250309120000_1.png'', Image ''PNG-a''),
                 (''output/c_20250309120000_3.png'', Image ''PNG-b'')]"
proof -
  let ?e = "reply_env (Some ''hi'') pixels"
  let ?c = "client_with 30 []"
  let ?resp = "Response (Some ''hi'') (Some [Candidate (Some (Content (Some pixels)))])"
  have look: "lookup_or_create ?e ?c (Some ''c'') = Inr (''c'', ?c)"
    by (simp add: lookup_or_create_known client_with_conv)
  have conv: "conversations ?c ''c'' = Some (conv_with [])"
    by (rule client_with_conv)
  have sent: "chat_send_message ?e (chat (conv_with [])) ''hello'' = Inr ?resp"
    by (simp add: reply_env_def)
  have out: "output_dir ?c = ''output''" and none: "files ?c = []"
    by (simp_all add: client_with_def client0_def init_def default_output_dir_def)
  obtain r c' where run: "send_message ?e ?c (Some ''c'') ''hello'' = Inr (r, c')"
    and success: "get r ''success'' = Some (PyBool True)"
    and saved: "files c' = [(''output/c_20250309120000_1.png'', Image ''PNG-a''),
                 (''output/c_20250309120000_3.png'', Image ''PNG-b'')]"
    by (simp add: send_message_unfold [OF look conv] Let_def out none exchange_pixels
        success_result_fields)
  have parts: "response_parts ?resp = pixels"
    by (simp add: response_parts_def)
  from image_paths_follow_inline_payloads [OF look conv sent run success]
  have "get r ''image_paths'' =
      Some (PyList [''output/c_20250309120000_1.png'', ''output/c_20250309120000_3.png''])"
    by (simp add: parts pixels_payloads out reply_env_image_path)
  with run saved pixels_payloads show ?thesis
    by blast
qed

subsection \<open>The store\<close>

lemma sessions_ok_init: "sessions_ok (init k m mh out)"
  by (simp add: sessions_ok_def init_def)

lemma sessions_ok_create:
  assumes "sessions_ok c" and "create_conversation e c cid = Inr (i, c1)"
  shows "sessions_ok c1"
  using assms(1) create_conversation_Inr(3) [OF assms(2)]
  by (auto simp: sessions_ok_def less_Suc_eq)

lemma sessions_ok_lookup_or_create:
  assumes "sessions_ok c" and "lookup_or_create e c cid = Inr (i, c1)"
  shows "sessions_ok c1"
  using assms
  by (auto simp: lookup_or_create_def split: option.splits if_splits intro: sessions_ok_create)

lemma sessions_ok_send_message:
  assumes "sessions_ok c" and "send_message e c cid message = Inr (r, c')"
  shows "sessions_ok c'"
proof -
  from assms(2) obtain i c1 where look: "lookup_or_create e c cid = Inr (i, c1)"
    by (cases "lookup_or_create e c cid") (auto simp: send_message_def)
  then have ok: "sessions_ok c1"
    using assms(1) sessions_ok_lookup_or_create by blast
  obtain conv where conv: "conversations c1 i = Some conv"
    using lookup_or_create_frame(4) [OF look] by blast
  from ok conv have "chat_id (chat conv) < sessions c1"
    by (simp add: sessions_ok_def)
  with assms(2) ok show ?thesis
    by (auto simp: send_message_unfold [OF look conv] Let_def sessions_ok_def
        record_user_message_def split: prod.splits sum.splits if_splits)
qed

lemma sessions_ok_reset:
  assumes "sessions_ok c" and "reset_conversation e c i = Inr (b, c')"
  shows "sessions_ok c'"
  using assms
  by (auto simp: reset_conversation_def split: if_splits sum.splits intro: sessions_ok_create)

lemma sessions_ok_delete: "sessions_ok c \<Longrightarrow> sessions_ok (snd (delete_conversation c i))"
  by (auto simp: sessions_ok_def delete_conversation_def split: if_splits)

text \<open>
  Claim C7: \<open>reset_conversation\<close> on a key of the store, when the new session
  opens, returns \<open>True\<close>; the store differs at the id only, where it holds a
  conversation with an empty history and the session just opened, which is not
  the old handle when that was opened before; the keys are the same; and the
  client is the one \<open>create_conversation\<close> gives after \<open>delete_conversation\<close>.
  On an id that is not a key it returns \<open>False\<close> and the client as it was.
\<close>

theorem reset_conversation_spec:
  "(conversations c i = Some conv \<and> chats_create e = None \<longrightarrow>
      (\<exists>c' conv'. reset_conversation e c i = Inr (True, c') \<and>
         conversations c' = (conversations c)(i \<mapsto> conv') \<and>
         history conv' = [] \<and> chat conv' = Chat (sessions c) \<and>
         (chat_id (chat conv) < sessions c \<longrightarrow> chat conv' \<noteq> chat conv) \<and>
         dom (conversations c') = dom (conversations c) \<and>
         create_conversation e (snd (delete_conversation c i)) (Some i) = Inr (i, c'))) \<and>
   (conversations c i = None \<longrightarrow> reset_conversation e c i = Inr (False, c))"
  by (cases "chat conv")
     (auto simp: reset_conversation_def create_conversation_def delete_conversation_def Let_def)

text \<open>A reset of the conversation \<open>c\<close> with two turns, and one on a new
  client.\<close>

theorem reset_conversation_spec_witness:
  "(\<exists>c' conv'. reset_conversation (reply_env None []) (client_with 30 [turn1, turn2]) ''c'' = Inr (True, c') \<and>
      conversations c' ''c'' = Some conv' \<and> history conv' = [] \<and> chat conv' = Chat 1) \<and>
   reset_conversation (reply_env None []) (client0 30) ''c'' = Inr (False, client0 30)"
proof -
  have known: "conversations (client_with 30 [turn1, turn2]) ''c'' = Some (conv_with [turn1, turn2]) \<and>
      chats_create (reply_env None []) = None"
    by (simp add: client_with_conv reply_env_def)
  have sessions: "sessions (client_with 30 [turn1, turn2]) = 1"
    by (simp add: client_with_def)
  from reset_conversation_spec [of "client_with 30 [turn1, turn2]" "''c''" "conv_with [turn1, turn2]"
      "reply_env None []"] known
  obtain c' conv' where
    "reset_conversation (reply_env None []) (client_with 30 [turn1, turn2]) ''c'' = Inr (True, c')"
    "conversations c' = (conversations (client_with 30 [turn1, turn2]))(''c'' \<mapsto> conv')"
    "history conv' = []" "chat conv' = Chat (sessions (client_with 30 [turn1, turn2]))"
    by blast
  then have "\<exists>c' conv'. reset_conversation (reply_env None []) (client_with 30 [turn1, turn2]) ''c'' = Inr (True, c') \<and>
      conversations c' ''c'' = Some conv' \<and> history conv' = [] \<and> chat conv' = Chat 1"
    by (simp add: sessions)
  moreover have "reset_conversation (reply_env None []) (client0 30) ''c'' = Inr (False, client0 30)"
    using reset_conversation_spec [of "client0 30" "''c''" _ "reply_env None []"]
    by (simp add: client0_empty)
  ultimately show ?thesis by blast
qed

text \<open>
  Claim C8: \<open>get_conversation_history\<close> on an id that is not a key of the
  store, because it was never created or because it was deleted, returns the empty
  list and leaves the client as it was; the function has no failing branch.
\<close>

theorem get_conversation_history_unknown:
  "(conversations c i = None \<longrightarrow> get_conversation_history c i = ([], c)) \<and>
   get_conversation_history (snd (delete_conversation c i)) i = ([], snd (delete_conversation c i)) \<and>
   get_conversation_history (init k m mh out) i = ([], init k m mh out)"
  by (simp add: get_conversation_history_def delete_conversation_def init_def)

text \<open>An id on a new client.\<close>

theorem get_conversation_history_unknown_witness:
  "get_conversation_history (client0 30) ''nobody'' = ([], client0 30)"
  using get_conversation_history_unknown [of "client0 30" "''nobody''"]
  by (simp add: client0_empty)

end
